theory Spec2Isabelle
  imports Complex_Main "HOL-Library.AList"
begin

section \<open>Python values\<close>

text \<open>
  The program is Python. Its floats are modelled by the real number they denote, with the
  three special values of IEEE 754 kept apart, because \<open>min\<close> and \<open>max\<close> treat them
  differently; rounding is not modelled. Text is a \<open>string\<close> whose characters are read as
  the code points 0 to 255.
\<close>

datatype pyfloat = Fin real | PosInf | NegInf | NaN

text \<open>The values \<open>json.loads\<close> produces; \<open>JNull\<close> is Python's \<open>None\<close>, \<open>JObj\<close> a \<open>dict\<close>
  in insertion order, \<open>JArr\<close> a \<open>list\<close>.\<close>

datatype json =
    JNull
  | JBool bool
  | JInt int
  | JFloat pyfloat
  | JStr string
  | JArr "json list"
  | JObj "(string \<times> json) list"

text \<open>Exceptions, as values. \<open>External\<close> is whatever a collaborator outside the
  repository raises.\<close>

datatype py_error =
    JSONDecodeError
  | ValueError
  | TypeError
  | OverflowError
  | KeyError
  | IndexError
  | AttributeError
  | External string

text \<open>\<open>a < b\<close> on floats: false whenever one side is NaN.\<close>

fun pf_less :: "pyfloat \<Rightarrow> pyfloat \<Rightarrow> bool" where
  "pf_less NaN _ = False"
| "pf_less _ NaN = False"
| "pf_less (Fin a) (Fin b) = (a < b)"
| "pf_less (Fin _) PosInf = True"
| "pf_less (Fin _) NegInf = False"
| "pf_less PosInf _ = False"
| "pf_less NegInf NegInf = False"
| "pf_less NegInf _ = True"

text \<open>\<open>a >= b\<close> on floats.\<close>

fun pf_ge :: "pyfloat \<Rightarrow> pyfloat \<Rightarrow> bool" where
  "pf_ge NaN _ = False"
| "pf_ge _ NaN = False"
| "pf_ge a b = (\<not> pf_less a b)"

text \<open>\<open>min(a, b)\<close> and \<open>max(a, b)\<close> of Python: the first argument stays unless the second
  is strictly smaller (larger).\<close>

definition py_min :: "pyfloat \<Rightarrow> pyfloat \<Rightarrow> pyfloat" where
  "py_min a b = (if pf_less b a then b else a)"

definition py_max :: "pyfloat \<Rightarrow> pyfloat \<Rightarrow> pyfloat" where
  "py_max a b = (if pf_less a b then b else a)"

text \<open>\<open>d.get(key, default)\<close>: an AttributeError on anything but a dict.\<close>

fun py_get :: "json \<Rightarrow> string \<Rightarrow> json \<Rightarrow> py_error + json" where
  "py_get (JObj kvs) k d = Inr (case map_of kvs k of Some v \<Rightarrow> v | None \<Rightarrow> d)"
| "py_get _ k d = Inl AttributeError"

text \<open>\<open>x >= t\<close> for a float literal \<open>t\<close>: numbers (and booleans, which are integers)
  compare, anything else is a TypeError.\<close>

fun py_ge_float :: "json \<Rightarrow> real \<Rightarrow> py_error + bool" where
  "py_ge_float (JInt i) t = Inr (of_int i \<ge> t)"
| "py_ge_float (JBool b) t = Inr ((if b then 1 else 0) \<ge> t)"
| "py_ge_float (JFloat f) t = Inr (pf_ge f (Fin t))"
| "py_ge_float _ t = Inl TypeError"

section \<open>Python strings\<close>

text \<open>\<open>str.isspace\<close> on the code points below 256; \<open>str.strip()\<close>, the regular expression
  class \<open>\s\<close> and \<open>float\<close> all use it. \<open>json\<close> has a whitespace of its own: blank, tab, line
  feed, carriage return.\<close>

definition py_isspace :: "char \<Rightarrow> bool" where
  "py_isspace c \<longleftrightarrow> c \<in> set [CHR 0x09, CHR 0x0A, CHR 0x0B, CHR 0x0C, CHR 0x0D,
      CHR 0x1C, CHR 0x1D, CHR 0x1E, CHR 0x1F, CHR 0x20, CHR 0x85, CHR 0xA0]"

definition json_ws :: "char \<Rightarrow> bool" where
  "json_ws c \<longleftrightarrow> c = CHR '' '' \<or> c = CHR 0x09 \<or> c = CHR 0x0A \<or> c = CHR 0x0D"

definition py_strip :: "string \<Rightarrow> string" where
  "py_strip s = rev (dropWhile py_isspace (rev (dropWhile py_isspace s)))"

definition starts_with :: "string \<Rightarrow> string \<Rightarrow> bool" where
  "starts_with s p \<longleftrightarrow> take (length p) s = p"

text \<open>\<open>str.lower()\<close>: the letters A to Z and the capital letters of Latin-1 move up by 32.\<close>

definition py_lower_char :: "char \<Rightarrow> char" where
  "py_lower_char c =
     (let n = (of_char c :: nat)
      in if (65 \<le> n \<and> n \<le> 90) \<or> (192 \<le> n \<and> n \<le> 222 \<and> n \<noteq> 215)
         then char_of (n + 32) else c)"

definition py_lower :: "string \<Rightarrow> string" where
  "py_lower s = map py_lower_char s"





section \<open>Sequencing with exceptions\<close>

text \<open>An exception ends the computation; \<open>then_do m f\<close> runs \<open>f\<close> on the value of \<open>m\<close> when
  \<open>m\<close> does not raise.\<close>

definition then_do :: "py_error + 'a \<Rightarrow> ('a \<Rightarrow> py_error + 'b) \<Rightarrow> py_error + 'b" where
  "then_do m f = (case m of Inl e \<Rightarrow> Inl e | Inr x \<Rightarrow> f x)"

text \<open>Truth value, iteration, \<open>x[k]\<close> and \<open>x[k] = v\<close> for a string key, as the interpreter
  decides them on decoded JSON.\<close>

fun py_truthy :: "json \<Rightarrow> bool" where
  "py_truthy JNull = False"
| "py_truthy (JBool b) = b"
| "py_truthy (JInt i) = (i \<noteq> 0)"
| "py_truthy (JFloat f) = (f \<noteq> Fin 0)"
| "py_truthy (JStr s) = (s \<noteq> [])"
| "py_truthy (JArr xs) = (xs \<noteq> [])"
| "py_truthy (JObj kvs) = (kvs \<noteq> [])"

fun py_iter :: "json \<Rightarrow> py_error + json list" where
  "py_iter (JArr xs) = Inr xs"
| "py_iter (JObj kvs) = Inr (map (\<lambda>(k, v). JStr k) kvs)"
| "py_iter (JStr s) = Inr (map (\<lambda>c. JStr [c]) s)"
| "py_iter _ = Inl TypeError"

fun py_getitem :: "json \<Rightarrow> string \<Rightarrow> py_error + json" where
  "py_getitem (JObj kvs) k = (case map_of kvs k of Some v \<Rightarrow> Inr v | None \<Rightarrow> Inl KeyError)"
| "py_getitem _ k = Inl TypeError"

fun py_setitem :: "json \<Rightarrow> string \<Rightarrow> json \<Rightarrow> py_error + json" where
  "py_setitem (JObj kvs) k v = Inr (JObj (AList.update k v kvs))"
| "py_setitem _ k v = Inl TypeError"

section \<open>Numbers\<close>

definition is_digit :: "char \<Rightarrow> bool" where
  "is_digit c \<longleftrightarrow> c \<in> set ''0123456789''"

definition digit_val :: "char \<Rightarrow> nat" where
  "digit_val c = of_char c - 48"

definition digits_val :: "string \<Rightarrow> nat" where
  "digits_val ds = foldl (\<lambda>n c. 10 * n + digit_val c) 0 ds"

definition decimal_value :: "string \<Rightarrow> string \<Rightarrow> real" where
  "decimal_value ip fr = real (digits_val ip) + real (digits_val fr) / 10 ^ length fr"

definition scale10 :: "real \<Rightarrow> int \<Rightarrow> real" where
  "scale10 x e = (if 0 \<le> e then x * 10 ^ nat e else x / 10 ^ nat (- e))"

text \<open>\<open>float(s)\<close> on a string: surrounding whitespace is dropped, an underscore may stand
  between two digits, then comes an optional sign and either \<open>inf\<close>, \<open>infinity\<close>, \<open>nan\<close> in any
  case or a decimal number with an optional exponent; the whole string must be used up.\<close>

fun underscores_ok_from :: "char \<Rightarrow> string \<Rightarrow> bool" where
  "underscores_ok_from prev [] = (prev \<noteq> CHR ''_'')"
| "underscores_ok_from prev (c # cs) =
     (if c = CHR ''_'' then is_digit prev \<and> underscores_ok_from c cs
      else if prev = CHR ''_'' then is_digit c \<and> underscores_ok_from c cs
      else underscores_ok_from c cs)"

definition underscores_ok :: "string \<Rightarrow> bool" where
  "underscores_ok s = underscores_ok_from (CHR 0x00) s"

definition py_float_of_str :: "string \<Rightarrow> py_error + pyfloat" where
  "py_float_of_str s =
     (let t = py_strip s in
      if \<not> underscores_ok t then Inl ValueError
      else
       (let u = filter (\<lambda>c. c \<noteq> CHR ''_'') t;
            neg = starts_with u ''-'';
            body = (if neg \<or> starts_with u ''+'' then tl u else u);
            word = py_lower body
        in if word = ''inf'' \<or> word = ''infinity'' then Inr (if neg then NegInf else PosInf)
           else if word = ''nan'' then Inr NaN
           else
            (let ip = takeWhile is_digit body;
                 r1 = dropWhile is_digit body;
                 fr = (if starts_with r1 ''.'' then takeWhile is_digit (tl r1) else []);
                 r2 = (if starts_with r1 ''.'' then dropWhile is_digit (tl r1) else r1);
                 m = (if neg then - decimal_value ip fr else decimal_value ip fr)
             in if ip = [] \<and> fr = [] then Inl ValueError
                else if r2 = [] then Inr (Fin m)
                else if starts_with r2 ''e'' \<or> starts_with r2 ''E'' then
                  (let x = tl r2;
                       minus = starts_with x ''-'';
                       ds = (if minus \<or> starts_with x ''+'' then tl x else x)
                   in if ds \<noteq> [] \<and> list_all is_digit ds
                      then Inr (Fin (scale10 m (if minus then - int (digits_val ds)
                                               else int (digits_val ds))))
                      else Inl ValueError)
                else Inl ValueError)))"

text \<open>\<open>float(x)\<close> on a decoded value. An integer beyond the range of a double is an
  OverflowError, \<open>None\<close>, a list or a dict a TypeError.\<close>

fun py_float :: "json \<Rightarrow> py_error + pyfloat" where
  "py_float (JFloat f) = Inr f"
| "py_float (JInt i) =
     (if \<bar>i\<bar> \<ge> 2 ^ 1024 - 2 ^ 970 then Inl OverflowError else Inr (Fin (of_int i)))"
| "py_float (JBool b) = Inr (Fin (if b then 1 else 0))"
| "py_float (JStr s) = py_float_of_str s"
| "py_float _ = Inl TypeError"

text \<open>Float subtraction, and \<open>conf - x\<close> for a float \<open>conf\<close> and a decoded value \<open>x\<close>.\<close>

fun pf_sub :: "pyfloat \<Rightarrow> pyfloat \<Rightarrow> pyfloat" where
  "pf_sub NaN _ = NaN"
| "pf_sub _ NaN = NaN"
| "pf_sub (Fin a) (Fin b) = Fin (a - b)"
| "pf_sub (Fin _) PosInf = NegInf"
| "pf_sub (Fin _) NegInf = PosInf"
| "pf_sub PosInf PosInf = NaN"
| "pf_sub PosInf _ = PosInf"
| "pf_sub NegInf NegInf = NaN"
| "pf_sub NegInf _ = NegInf"

fun py_float_minus :: "pyfloat \<Rightarrow> json \<Rightarrow> py_error + pyfloat" where
  "py_float_minus x (JFloat y) = Inr (pf_sub x y)"
| "py_float_minus x (JInt i) = then_do (py_float (JInt i)) (\<lambda>y. Inr (pf_sub x y))"
| "py_float_minus x (JBool b) = Inr (pf_sub x (Fin (if b then 1 else 0)))"
| "py_float_minus x _ = Inl TypeError"

text \<open>The idiom \<open>max(0.0, min(1.0, x))\<close>.\<close>

definition clamp01 :: "pyfloat \<Rightarrow> pyfloat" where
  "clamp01 x = py_max (Fin 0) (py_min (Fin 1) x)"

section \<open>The JSON decoder\<close>

text \<open>\<open>json.loads\<close> of the standard library, in its default configuration: strict strings,
  duplicate keys resolved in favour of the last one, \<open>NaN\<close>, \<open>Infinity\<close> and \<open>-Infinity\<close>
  accepted. A scanner returns the decoded value with the rest of the input, or \<open>None\<close> where the
  library raises \<open>JSONDecodeError\<close>. An escape \<open>\uXXXX\<close> yields the character of that code;
  a code above 255 has no character in this alphabet and is cut to its low byte.\<close>

definition skip_ws :: "string \<Rightarrow> string" where
  "skip_ws s = dropWhile json_ws s"

definition scan_number :: "string \<Rightarrow> (json \<times> string) option" where
  "scan_number s =
     (let neg = starts_with s ''-'';
          s1 = (if neg then tl s else s);
          ip = (case s1 of [] \<Rightarrow> []
                | d # r \<Rightarrow> if d = CHR ''0'' then [d]
                           else if is_digit d then d # takeWhile is_digit r else [])
      in if ip = [] then None
         else
          (let s2 = drop (length ip) s1;
               fr = (case s2 of [] \<Rightarrow> []
                     | p # r \<Rightarrow> if p = CHR ''.'' then takeWhile is_digit r else []);
               s3 = (if fr = [] then s2 else drop (1 + length fr) s2);
               ex = (case s3 of [] \<Rightarrow> None
                     | e # r \<Rightarrow>
                        if e = CHR ''e'' \<or> e = CHR ''E'' then
                          (let minus = starts_with r ''-'';
                               r' = (if minus \<or> starts_with r ''+'' then tl r else r);
                               ds = takeWhile is_digit r'
                           in if ds = [] then None
                              else Some (if minus then - int (digits_val ds) else int (digits_val ds),
                                         drop (length ds) r'))
                        else None)
           in case ex of
                None \<Rightarrow>
                  if fr = [] then
                    Some (JInt (if neg then - int (digits_val ip) else int (digits_val ip)), s3)
                  else
                    Some (JFloat (Fin ((if neg then -1 else 1) *
                            (real (digits_val ip) + real (digits_val fr) / 10 ^ length fr))), s3)
              | Some (e, s4) \<Rightarrow>
                  Some (JFloat (Fin (scale10 ((if neg then -1 else 1) *
                            (real (digits_val ip) + real (digits_val fr) / 10 ^ length fr)) e)), s4)))"

definition hex_val :: "char \<Rightarrow> nat option" where
  "hex_val c =
     (if is_digit c then Some (digit_val c)
      else if c \<in> set ''abcdef'' then Some (of_char c - 87)
      else if c \<in> set ''ABCDEF'' then Some (of_char c - 55)
      else None)"

definition unescape :: "char \<Rightarrow> char option" where
  "unescape e =
     (if e = CHR ''\"'' \<or> e = CHR 0x5C \<or> e = CHR ''/'' then Some e
      else if e = CHR ''b'' then Some (CHR 0x08)
      else if e = CHR ''f'' then Some (CHR 0x0C)
      else if e = CHR ''n'' then Some (CHR 0x0A)
      else if e = CHR ''r'' then Some (CHR 0x0D)
      else if e = CHR ''t'' then Some (CHR 0x09)
      else None)"

fun scan_string :: "string \<Rightarrow> (string \<times> string) option" where
  "scan_string [] = None"
| "scan_string (c # cs) =
     (if c = CHR ''\"'' then Some ([], cs)
      else if c = CHR 0x5C then
        (case cs of
           [] \<Rightarrow> None
         | e # r \<Rightarrow>
            if e = CHR ''u'' then
              (case r of
                 h1 # h2 # h3 # h4 # r' \<Rightarrow>
                   (case (hex_val h1, hex_val h2, hex_val h3, hex_val h4) of
                      (Some a, Some b, Some c', Some d) \<Rightarrow>
                        map_option (apfst ((#) (char_of (((a * 16 + b) * 16 + c') * 16 + d))))
                          (scan_string r')
                    | _ \<Rightarrow> None)
               | _ \<Rightarrow> None)
            else
              (case unescape e of
                 None \<Rightarrow> None
               | Some ch \<Rightarrow> map_option (apfst ((#) ch)) (scan_string r)))
      else if (of_char c :: nat) < 32 then None
      else map_option (apfst ((#) c)) (scan_string cs))"

definition dict_of_pairs :: "(string \<times> json) list \<Rightarrow> (string \<times> json) list" where
  "dict_of_pairs ps = fold (\<lambda>(k, v) d. AList.update k v d) ps []"

text \<open>The three scanners call each other as the library's \<open>scan_once\<close>, \<open>JSONArray\<close> and
  \<open>JSONObject\<close> do. The comparisons of lengths only say that a value uses up at least one
  character; they are what the termination proof rests on.\<close>

function scan_once :: "string \<Rightarrow> (json \<times> string) option"
  and array_items :: "string \<Rightarrow> (json list \<times> string) option"
  and object_items :: "string \<Rightarrow> ((string \<times> json) list \<times> string) option" where
  "scan_once s =
     (case s of
        [] \<Rightarrow> None
      | c # r \<Rightarrow>
         if c = CHR ''\"'' then map_option (apfst JStr) (scan_string r)
         else if c = CHR ''{'' then
           (if starts_with (skip_ws r) ''}'' then Some (JObj [], tl (skip_ws r))
            else map_option (apfst (\<lambda>ps. JObj (dict_of_pairs ps))) (object_items (skip_ws r)))
         else if c = CHR ''['' then
           (if starts_with (skip_ws r) '']'' then Some (JArr [], tl (skip_ws r))
            else map_option (apfst JArr) (array_items (skip_ws r)))
         else if starts_with s ''null'' then Some (JNull, drop 4 s)
         else if starts_with s ''true'' then Some (JBool True, drop 4 s)
         else if starts_with s ''false'' then Some (JBool False, drop 5 s)
         else
           (case scan_number s of
              Some res \<Rightarrow> Some res
            | None \<Rightarrow>
               if starts_with s ''NaN'' then Some (JFloat NaN, drop 3 s)
               else if starts_with s ''Infinity'' then Some (JFloat PosInf, drop 8 s)
               else if starts_with s ''-Infinity'' then Some (JFloat NegInf, drop 9 s)
               else None))"
| "array_items s =
     (case scan_once s of
        None \<Rightarrow> None
      | Some (v, r) \<Rightarrow>
         (case skip_ws r of
            [] \<Rightarrow> None
          | d # r' \<Rightarrow>
             if d = CHR '']'' then Some ([v], r')
             else if d = CHR '','' \<and> length r' < length s then
               map_option (apfst ((#) v)) (array_items (skip_ws r'))
             else None))"
| "object_items s =
     (case s of
        [] \<Rightarrow> None
      | q # r \<Rightarrow>
         if q = CHR ''\"'' then
           (case scan_string r of
              None \<Rightarrow> None
            | Some (key, r1) \<Rightarrow>
               (case skip_ws r1 of
                  [] \<Rightarrow> None
                | colon # r2 \<Rightarrow>
                   if colon = CHR '':'' \<and> length r2 < length s then
                     (case scan_once (skip_ws r2) of
                        None \<Rightarrow> None
                      | Some (v, r3) \<Rightarrow>
                         (case skip_ws r3 of
                            [] \<Rightarrow> None
                          | d # r4 \<Rightarrow>
                             if d = CHR ''}'' then Some ([(key, v)], r4)
                             else if d = CHR '','' \<and> length r4 < length s then
                               map_option (apfst ((#) (key, v))) (object_items (skip_ws r4))
                             else None))
                   else None))
         else None)"
  by pat_completeness auto
termination
proof (relation "measure (\<lambda>x. case x of
          Inl s \<Rightarrow> 2 * length s
        | Inr (Inl s) \<Rightarrow> 2 * length s + 1
        | Inr (Inr s) \<Rightarrow> 2 * length s + 1)", goal_cases)
  case 1
  show ?case by simp
next
  case (2 s c r)
  have "length (skip_ws r) \<le> length r" by (simp add: skip_ws_def length_dropWhile_le)
  with 2 show ?case by simp
next
  case (3 s c r)
  have "length (skip_ws r) \<le> length r" by (simp add: skip_ws_def length_dropWhile_le)
  with 3 show ?case by simp
next
  case (4 s)
  show ?case by simp
next
  case (5 s x2 v r d r')
  have "length (skip_ws r') \<le> length r'" by (simp add: skip_ws_def length_dropWhile_le)
  with 5 show ?case by simp
next
  case (6 s q r x2 key r1 colon r2)
  have "length (skip_ws r2) \<le> length r2" by (simp add: skip_ws_def length_dropWhile_le)
  with 6 show ?case by simp
next
  case (7 s q r x2 key r1 colon r2 x2a v r3 d r4)
  have "length (skip_ws r4) \<le> length r4" by (simp add: skip_ws_def length_dropWhile_le)
  with 7 show ?case by simp
qed

declare scan_once.simps [simp del] array_items.simps [simp del] object_items.simps [simp del]

definition json_loads :: "string \<Rightarrow> py_error + json" where
  "json_loads s =
     (case scan_once (skip_ws s) of
        None \<Rightarrow> Inl JSONDecodeError
      | Some (v, r) \<Rightarrow> if skip_ws r = [] then Inr v else Inl JSONDecodeError)"

text \<open>\<open>try: return json.loads(s)\<close> followed by \<open>except json.JSONDecodeError:\<close> and a handler.\<close>

definition try_loads :: "string \<Rightarrow> (py_error + json) \<Rightarrow> py_error + json" where
  "try_loads s handler =
     (case json_loads s of
        Inr v \<Rightarrow> Inr v
      | Inl e \<Rightarrow> if e = JSONDecodeError then handler else Inl e)"

section \<open>Field names (agent3\_reviewer.py)\<close>

definition FIELD_ALIASES :: "(string \<times> string) list" where
  "FIELD_ALIASES =
     [(''potassium_meq_l'', ''potassium_mmol_l''),
      (''k_meq_l'', ''potassium_mmol_l''),
      (''k_mmol_l'', ''potassium_mmol_l''),
      (''potassium'', ''potassium_mmol_l''),
      (''serum_potassium'', ''potassium_mmol_l''),
      (''bun'', ''bun_mg_dl''),
      (''bun_mmol_l'', ''bun_mg_dl''),
      (''bun_mgdl'', ''bun_mg_dl''),
      (''creatinine'', ''creatinine_mg_dl''),
      (''creatinine_mgdl'', ''creatinine_mg_dl''),
      (''serum_creatinine'', ''creatinine_mg_dl''),
      (''cr'', ''creatinine_mg_dl''),
      (''gfr'', ''egfr_ckd_epi''),
      (''egfr'', ''egfr_ckd_epi''),
      (''estimated_gfr'', ''egfr_ckd_epi''),
      (''body_mass_index'', ''bmi''),
      (''body_mass_idx'', ''bmi'')]"

text \<open>The body of the loop of \<open>normalize_fields\<close>, for one key, and the loop itself. A dict
  keeps its keys in the order of their first insertion and a later assignment replaces the
  value in place, which is what \<open>AList.update\<close> does.\<close>

definition canonical_key :: "string \<Rightarrow> string" where
  "canonical_key k =
     (let key_lower = py_strip (py_lower k)
      in case map_of FIELD_ALIASES key_lower of Some canonical \<Rightarrow> canonical | None \<Rightarrow> key_lower)"

definition normalize_fields :: "(string \<times> 'v) list \<Rightarrow> (string \<times> 'v) list" where
  "normalize_fields patient_dict =
     fold (\<lambda>(k, v) normalized. AList.update (canonical_key k) v normalized) patient_dict []"

section \<open>Reading the patient file\<close>


section \<open>Recovering JSON from a model's answer\<close>

text \<open>The substitution \<open>re.sub(r"^```(?:json)?\s*|\s*```$", "", s, flags=re.MULTILINE)\<close>,
  scanning from left to right. The flag says whether the position is the start of a line. The
  first alternative always matches at a fence that starts a line; the second one needs the
  fence to end a line, after as much whitespace as there is.\<close>

function strip_fences_from :: "bool \<Rightarrow> string \<Rightarrow> string" where
  "strip_fences_from bol [] = []"
| "strip_fences_from bol (c # cs) =
     (if bol \<and> starts_with (c # cs) ''```'' then
        (let r = drop 3 (c # cs);
             r' = (if starts_with r ''json'' then drop 4 r else r);
             ws = takeWhile py_isspace r'
         in strip_fences_from (ws \<noteq> [] \<and> last ws = CHR 0x0A) (dropWhile py_isspace r'))
      else
        (let r = dropWhile py_isspace (c # cs)
         in if starts_with r ''```'' \<and> (drop 3 r = [] \<or> starts_with (drop 3 r) [CHR 0x0A])
            then strip_fences_from False (drop 3 r)
            else c # strip_fences_from (c = CHR 0x0A) cs))"
  by pat_completeness auto
termination
proof (relation "measure (\<lambda>(bol, s). length s)", goal_cases)
  case 1
  show ?case by simp
next
  case (2 bol c cs r r' ws)
  have "length (dropWhile py_isspace r') \<le> length r'" by (rule length_dropWhile_le)
  moreover have "length r' \<le> length r" using 2 by (simp split: if_splits)
  moreover have "length r < length (c # cs)" using 2 by simp
  ultimately show ?case by simp
next
  case (3 bol c cs r)
  have "length (dropWhile py_isspace (c # cs)) \<le> length (c # cs)"
    by (rule length_dropWhile_le)
  then have "length r \<le> length (c # cs)" using 3 by simp
  moreover have "starts_with r ''```''" using 3 by blast
  then have "r \<noteq> []" by (cases r) (simp_all add: starts_with_def)
  ultimately show ?case by (cases r) auto
next
  case (4 bol c cs r)
  show ?case by simp
qed

definition strip_fences :: "string \<Rightarrow> string" where
  "strip_fences s = strip_fences_from True s"

text \<open>\<open>re.search(r"\{[\s\S]*\}", s)\<close>: from the first opening brace to the last closing brace
  behind it.\<close>

definition brace_span :: "string \<Rightarrow> string option" where
  "brace_span s =
     (case dropWhile (\<lambda>c. c \<noteq> CHR ''{'') s of
        [] \<Rightarrow> None
      | b # r \<Rightarrow>
         (case rev (dropWhile (\<lambda>c. c \<noteq> CHR ''}'') (rev r)) of
            [] \<Rightarrow> None
          | u \<Rightarrow> Some (b # u)))"

text \<open>\<open>re.sub(r',(\s*[}\]])', r'\1', s)\<close>: a comma is dropped when only whitespace separates
  it from a closing brace or bracket.\<close>

function strip_trailing_commas :: "string \<Rightarrow> string" where
  "strip_trailing_commas [] = []"
| "strip_trailing_commas (c # cs) =
     (if c = CHR '','' then
        (case dropWhile py_isspace cs of
           [] \<Rightarrow> c # strip_trailing_commas cs
         | b # r \<Rightarrow>
            if b = CHR ''}'' \<or> b = CHR '']''
            then takeWhile py_isspace cs @ b # strip_trailing_commas r
            else c # strip_trailing_commas cs)
      else c # strip_trailing_commas cs)"
  by pat_completeness auto
termination
proof (relation "measure length", goal_cases)
  case (3 c cs b r)
  have "length (dropWhile py_isspace cs) \<le> length cs" by (rule length_dropWhile_le)
  with 3 show ?case by simp
qed simp_all

text \<open>\<open>s.replace("\n", " ").replace("\r", "")\<close>.\<close>

definition flatten_newlines :: "string \<Rightarrow> string" where
  "flatten_newlines s =
     filter (\<lambda>c. c \<noteq> CHR 0x0D) (map (\<lambda>c. if c = CHR 0x0A then CHR '' '' else c) s)"

text \<open>The loop that counts braces: the prefix up to the brace that brings the count back to
  zero, or \<open>None\<close> when the loop runs to the end of the text.\<close>

fun balanced_prefix :: "int \<Rightarrow> string \<Rightarrow> string option" where
  "balanced_prefix brace_count [] = None"
| "balanced_prefix brace_count (c # cs) =
     (if c = CHR ''{'' then map_option ((#) c) (balanced_prefix (brace_count + 1) cs)
      else if c = CHR ''}'' then
        (if brace_count - 1 = 0 then Some [c]
         else map_option ((#) c) (balanced_prefix (brace_count - 1) cs))
      else map_option ((#) c) (balanced_prefix brace_count cs))"

definition safe_default :: json where
  "safe_default = JObj [(''confidence'', JFloat (Fin 0.5)),
                        (''feedback'', JStr ''JSON parsing error in review''),
                        (''approved'', JBool False)]"

text \<open>\<open>extract_json_from_text\<close>. The diagnostic it prints is not part of the model.\<close>

definition extract_json_from_text :: "string \<Rightarrow> py_error + json" where
  "extract_json_from_text text =
     (if text = [] then Inr JNull
      else
       (let stripped = strip_fences (py_strip text) in
        try_loads stripped
         (case brace_span stripped of
            None \<Rightarrow> Inr JNull
          | Some candidate \<Rightarrow>
             try_loads candidate
              (try_loads (strip_trailing_commas candidate)
                (try_loads (strip_trailing_commas (flatten_newlines candidate))
                  (case dropWhile (\<lambda>c. c \<noteq> CHR ''{'') candidate of
                     [] \<Rightarrow> Inr JNull
                   | from_brace \<Rightarrow>
                      (case balanced_prefix 0 from_brace of
                         None \<Rightarrow> Inr safe_default
                       | Some partial \<Rightarrow>
                          try_loads (strip_trailing_commas partial) (Inr safe_default))))))))"

section \<open>The review agent\<close>

text \<open>What \<open>run_review_agent\<close> calls and does not define: the completion service, the renal
  rule tool, the hallucination detector and the clock. \<open>json.dumps\<close> and \<open>str\<close> print
  floats and dicts in ways that are not modelled; they are parameters as well.\<close>

record collaborators =
  call_llm :: "string \<Rightarrow> py_error + string"
  run_renal_tool :: "(string \<times> json) list \<Rightarrow> py_error + json"
  detect_and_score_statements :: "json \<Rightarrow> (string \<times> json) list \<Rightarrow> json \<Rightarrow> py_error + json"
  utcnow_isoformat :: string
  json_dumps :: "json \<Rightarrow> string"
  py_str :: "json \<Rightarrow> string"

definition now_iso :: "collaborators \<Rightarrow> string" where
  "now_iso env = utcnow_isoformat env @ ''Z''"

definition score_prompt :: "collaborators \<Rightarrow> json \<Rightarrow> (string \<times> json) list \<Rightarrow> json \<Rightarrow> string" where
  "score_prompt env agent2_output patient_data renal_out =
     ''You are evaluating the quality of imaging protocol recommendations from another agent.\<newline>'' @
     ''Given patient data and renal tool results, assess the correctness and appropriateness of Agent 2's output.\<newline>'' @
     ''Return ONLY JSON with a single key 'agent2_confidence' between 0 and 1.\<newline>\<newline>'' @
     ''Patient data:\<newline>'' @ json_dumps env (JObj patient_data) @ ''\<newline>\<newline>'' @
     ''Renal tool output:\<newline>'' @ json_dumps env renal_out @ ''\<newline>\<newline>'' @
     ''Agent 2 output:\<newline>'' @ json_dumps env agent2_output @ ''\<newline>\<newline>'' @
     ''Example:\<newline>{\"agent2_confidence\": 0.87}''"

definition score_agent2 ::
  "collaborators \<Rightarrow> json \<Rightarrow> (string \<times> json) list \<Rightarrow> json \<Rightarrow> py_error + json" where
  "score_agent2 env agent2_output patient_data renal_out =
     then_do (call_llm env (score_prompt env agent2_output patient_data renal_out)) (\<lambda>raw_score.
       Inr (case extract_json_from_text raw_score of
              Inr (JObj parsed) \<Rightarrow>
                (case map_of parsed ''agent2_confidence'' of
                   Some v \<Rightarrow>
                     (case py_float v of
                        Inr val \<Rightarrow> JFloat (clamp01 val)
                      | Inl _ \<Rightarrow> JNull)
                 | None \<Rightarrow> JNull)
            | _ \<Rightarrow> JNull))"

text \<open>\<open>_coerce_feedback_shape\<close>.\<close>

definition as_list :: "collaborators \<Rightarrow> json \<Rightarrow> json list" where
  "as_list env x = (case x of JArr xs \<Rightarrow> xs | _ \<Rightarrow> [JStr (py_str env x)])"

definition coerce_feedback_shape ::
  "collaborators \<Rightarrow> json \<Rightarrow> py_error + (json list \<times> json list \<times> pyfloat)" where
  "coerce_feedback_shape env obj =
     then_do (py_get obj ''issues'' (JArr [])) (\<lambda>issues.
     then_do (py_get obj ''recommendations'' (JArr [])) (\<lambda>recs.
     then_do (py_get obj ''confidence'' (JFloat (Fin 0.5))) (\<lambda>conf.
       Inr (as_list env issues, as_list env recs,
            clamp01 (case py_float conf of Inr c \<Rightarrow> c | Inl _ \<Rightarrow> Fin 0.5)))))"

text \<open>The condition of the list comprehension in \<open>run_review_agent\<close>, with the short circuit
  of \<open>and\<close>; the comprehension; and the assignment to \<open>renal_out["checks"]\<close>.\<close>

definition optional_missing :: "json \<Rightarrow> py_error + bool" where
  "optional_missing c =
     then_do (py_get c ''status'' JNull) (\<lambda>status.
       if status = JStr ''missing''
       then then_do (py_get c ''priority'' JNull) (\<lambda>priority. Inr (priority = JStr ''optional''))
       else Inr False)"

fun filter_checks :: "json list \<Rightarrow> py_error + json list" where
  "filter_checks [] = Inr []"
| "filter_checks (c # cs) =
     then_do (optional_missing c) (\<lambda>dropped.
     then_do (filter_checks cs) (\<lambda>rest.
       Inr (if dropped then rest else c # rest)))"

definition drop_optional_missing :: "json \<Rightarrow> py_error + json" where
  "drop_optional_missing renal_out =
     then_do (py_get renal_out ''checks'' (JArr [])) (\<lambda>checks.
     then_do (py_iter checks) (\<lambda>cs.
     then_do (filter_checks cs) (\<lambda>kept.
       py_setitem renal_out ''checks'' (JArr kept))))"

definition review_prompt ::
  "collaborators \<Rightarrow> (string \<times> json) list \<Rightarrow> (string \<times> json) list \<Rightarrow> json \<Rightarrow> json \<Rightarrow> string" where
  "review_prompt env raw_patient_data patient_data renal_out agent2_output =
     ''You are a clinical imaging protocol reviewer.\<newline>'' @
     ''Given patient data, renal tool output, and protocol suggestions from another agent,\<newline>'' @
     ''verify appropriateness, suggest changes, and output JSON with: issues, recommendations, confidence.\<newline>\<newline>'' @
     ''Patient data:\<newline>'' @ json_dumps env (JObj raw_patient_data) @ ''\<newline>\<newline>'' @
     ''Normalized patient data:\<newline>'' @ json_dumps env (JObj patient_data) @ ''\<newline>\<newline>'' @
     ''Renal tool output:\<newline>'' @ json_dumps env renal_out @ ''\<newline>\<newline>'' @
     ''Agent 2 output:\<newline>'' @ json_dumps env agent2_output @ ''\<newline>\<newline>''"

text \<open>Lines 229 to 232: the penalty of the hallucination analysis.\<close>

definition penalised_confidence :: "pyfloat \<Rightarrow> json \<Rightarrow> py_error + pyfloat" where
  "penalised_confidence conf hall_analysis =
     then_do (py_getitem hall_analysis ''recommendation'') (\<lambda>recommendation.
     then_do (py_getitem recommendation ''confidence_reduction'') (\<lambda>reduction.
     then_do (py_float_minus conf reduction) (\<lambda>lowered.
       Inr (clamp01 lowered))))"

text \<open>\<open>run_review_agent\<close> from the call of \<open>score_agent2\<close> to the end, as a function of the
  filtered tool output, and the whole function.\<close>

definition review_downstream ::
  "collaborators \<Rightarrow> (string \<times> json) list \<Rightarrow> (string \<times> json) list \<Rightarrow> json \<Rightarrow> json \<Rightarrow>
   py_error + json" where
  "review_downstream env raw_patient_data patient_data agent2_output renal_out =
     then_do (score_agent2 env agent2_output patient_data renal_out) (\<lambda>agent2_confidence.
     then_do (call_llm env (review_prompt env raw_patient_data patient_data renal_out agent2_output))
       (\<lambda>llm_raw.
     then_do (extract_json_from_text llm_raw) (\<lambda>extracted.
     then_do (coerce_feedback_shape env (if py_truthy extracted then extracted else JObj []))
       (\<lambda>(issues, recs, conf).
     then_do (detect_and_score_statements env
                (JObj [(''issues'', JArr issues), (''recommendations'', JArr recs),
                       (''confidence'', JFloat conf)])
                patient_data
                (JObj [(''renal'', renal_out)])) (\<lambda>hall_analysis.
     then_do (penalised_confidence conf hall_analysis) (\<lambda>conf'.
       Inr (JObj
         [(''issues'', JArr issues),
          (''recommendations'', JArr recs),
          (''confidence'', JFloat conf'),
          (''agent2_confidence'', agent2_confidence),
          (''timestamp'', JStr (now_iso env)),
          (''tool_outputs'', JObj [(''renal'', renal_out)]),
          (''llm_raw'', JStr llm_raw),
          (''hallucination_analysis'', hall_analysis),
          (''feedback'', JObj [(''issues'', JArr issues),
                               (''recommendations'', JArr recs),
                               (''confidence'', JFloat conf')])])))))))"

definition run_review_agent :: "collaborators \<Rightarrow> (string \<times> json) list \<Rightarrow> json \<Rightarrow> py_error + json" where
  "run_review_agent env raw_patient_data agent2_output =
     (let patient_data = normalize_fields raw_patient_data in
      then_do (run_renal_tool env patient_data) (\<lambda>tool_out.
      then_do (drop_optional_missing tool_out) (\<lambda>renal_out.
        review_downstream env raw_patient_data patient_data agent2_output renal_out)))"

section \<open>The orchestration loop (main.py)\<close>

text \<open>
  Lines 64 to 110 of \<open>run_pipeline\<close>. The two agents are collaborators; each call is
  indexed by the iteration that makes it, so that a collaborator may answer differently
  every time. \<open>gen k patient context feedback\<close> is \<open>run_agent2_2\<close> in iteration \<open>k\<close>,
  \<open>review k patient candidate\<close> is \<open>run_review_agent\<close>. Writing the artifacts to disk and
  the FHIR conversion (whose failures are caught) do not influence the returned value and
  are left out.
\<close>

function feedback_loop ::
  "(nat \<Rightarrow> json \<Rightarrow> string \<Rightarrow> json \<Rightarrow> py_error + json) \<Rightarrow>
   (nat \<Rightarrow> json \<Rightarrow> json \<Rightarrow> py_error + json) \<Rightarrow>
   json \<Rightarrow> string \<Rightarrow> nat \<Rightarrow> json \<Rightarrow> json \<Rightarrow> py_error + (json \<times> nat)" where
  "feedback_loop gen review patient ctx loop_count review_feedback final_agent2_output =
     (if loop_count < 6 then
        (let loop_count' = loop_count + 1 in
         case gen loop_count' patient ctx review_feedback of
           Inl e \<Rightarrow> Inl e
         | Inr out \<Rightarrow>
            (case review loop_count' patient out of
               Inl e \<Rightarrow> Inl e
             | Inr fb \<Rightarrow>
                if loop_count' \<ge> 2 then
                  (case py_get fb ''confidence'' (JInt 0) of
                     Inl e \<Rightarrow> Inl e
                   | Inr c \<Rightarrow>
                      (case py_ge_float c 0.75 of
                         Inl e \<Rightarrow> Inl e
                       | Inr True \<Rightarrow> Inr (out, loop_count')
                       | Inr False \<Rightarrow>
                           feedback_loop gen review patient ctx loop_count' fb out))
                else feedback_loop gen review patient ctx loop_count' fb out))
      else Inr (final_agent2_output, loop_count))"
  by pat_completeness auto
termination
  by (relation "measure (\<lambda>(gen, review, patient, ctx, n, fb, out). 6 - n)") auto

declare feedback_loop.simps [simp del]

text \<open>The returned mapping \<open>{"final_output": ..., "loops_run": ...}\<close>.\<close>

definition run_pipeline_loop ::
  "(nat \<Rightarrow> json \<Rightarrow> string \<Rightarrow> json \<Rightarrow> py_error + json) \<Rightarrow>
   (nat \<Rightarrow> json \<Rightarrow> json \<Rightarrow> py_error + json) \<Rightarrow>
   json \<Rightarrow> string \<Rightarrow> py_error + json" where
  "run_pipeline_loop gen review patient ctx =
     (case feedback_loop gen review patient ctx 0 JNull JNull of
        Inl e \<Rightarrow> Inl e
      | Inr (out, n) \<Rightarrow> Inr (JObj [(''final_output'', out), (''loops_run'', JInt (int n))]))"

text \<open>A review collaborator that answers with the confidences of a given sequence, one
  per iteration, and fails once the sequence is used up.\<close>

definition scripted_review :: "real list \<Rightarrow> nat \<Rightarrow> json \<Rightarrow> json \<Rightarrow> py_error + json" where
  "scripted_review cs k patient out =
     (if 1 \<le> k \<and> k \<le> length cs
      then Inr (JObj [(''confidence'', JFloat (Fin (cs ! (k - 1))))])
      else Inl (External ''no more reviews''))"

definition echo_gen :: "nat \<Rightarrow> json \<Rightarrow> string \<Rightarrow> json \<Rightarrow> py_error + json" where
  "echo_gen k patient ctx fb = Inr (JInt (int k))"

section \<open>Collaborators for the concrete runs\<close>

definition demo_env :: collaborators where
  "demo_env = \<lparr>
     call_llm = (\<lambda>prompt. Inr ''{\"issues\": \"dose\", \"confidence\": 0.9, \"agent2_confidence\": 3}''),
     run_renal_tool = (\<lambda>pd. Inr (JObj [(''egfr'', JInt 40), (''checks'', JArr [
        JObj [(''name'', JStr ''egfr''), (''status'', JStr ''ok''), (''priority'', JStr ''required'')],
        JObj [(''name'', JStr ''bmi''), (''status'', JStr ''missing''), (''priority'', JStr ''optional'')],
        JObj [(''name'', JStr ''cr''), (''status'', JStr ''missing''), (''priority'', JStr ''required'')]])])),
     detect_and_score_statements = (\<lambda>draft pd tools.
        Inr (JObj [(''recommendation'', JObj [(''confidence_reduction'', JFloat (Fin 0.25))])])),
     utcnow_isoformat = ''2024-01-01T00:00:00'',
     json_dumps = (\<lambda>j. ''<json>''),
     py_str = (\<lambda>j. case j of JStr s \<Rightarrow> s | _ \<Rightarrow> ''?'') \<rparr>"

section \<open>The loop stops by the sixth iteration\<close>

lemma feedback_loop_stops:
  assumes gen: "\<forall>k fb. \<exists>out. gen k patient ctx fb = Inr out"
    and rev: "\<forall>k out. \<exists>kvs. review k patient out = Inr (JObj kvs) \<and>
                map_of kvs ''confidence'' = Some (JFloat (Fin (c k)))"
  shows "n < 6 \<Longrightarrow> \<exists>out m. feedback_loop gen review patient ctx n fb out0 = Inr (out, m) \<and>
            n < m \<and> 2 \<le> m \<and> m \<le> 6 \<and> (c m \<ge> 0.75 \<or> m = 6) \<and>
            (\<forall>k. n < k \<and> 2 \<le> k \<and> k < m \<longrightarrow> c k < 0.75)"
proof (induction "6 - n" arbitrary: n fb out0)
  case 0
  then show ?case by simp
next
  case (Suc d)
  obtain out where out: "gen (n + 1) patient ctx fb = Inr out"
    using gen by blast
  obtain kvs where kvs: "review (n + 1) patient out = Inr (JObj kvs)"
      "map_of kvs ''confidence'' = Some (JFloat (Fin (c (n + 1))))"
    using rev by blast
  show ?case
  proof (cases "2 \<le> n + 1 \<and> c (n + 1) \<ge> 0.75")
    case True
    then have "feedback_loop gen review patient ctx n fb out0 = Inr (out, n + 1)"
      using Suc.prems out kvs by (subst feedback_loop.simps) simp
    then show ?thesis using True Suc.prems by auto
  next
    case False
    then have step: "feedback_loop gen review patient ctx n fb out0 =
        feedback_loop gen review patient ctx (n + 1) (JObj kvs) out"
      using Suc.prems out kvs by (subst feedback_loop.simps) (auto simp: not_le)
    show ?thesis
    proof (cases "n + 1 < 6")
      case True
      have "d = 6 - (n + 1)" using Suc.hyps(2) by simp
      from Suc.hyps(1)[OF this True, of "JObj kvs" out]
      obtain out' m where m:
        "feedback_loop gen review patient ctx (n + 1) (JObj kvs) out = Inr (out', m)"
        "n + 1 < m" "2 \<le> m" "m \<le> 6" "c m \<ge> 0.75 \<or> m = 6"
        "\<forall>k. n + 1 < k \<and> 2 \<le> k \<and> k < m \<longrightarrow> c k < 0.75"
        by blast
      have "\<forall>k. n < k \<and> 2 \<le> k \<and> k < m \<longrightarrow> c k < 0.75"
      proof (intro allI impI)
        fix k assume k: "n < k \<and> 2 \<le> k \<and> k < m"
        show "c k < 0.75"
        proof (cases "k = n + 1")
          case True
          then show ?thesis using False k by auto
        next
          case False
          then show ?thesis using m(6) k by auto
        qed
      qed
      then show ?thesis using step m by auto
    next
      case False
      then have n5: "n = 5" using Suc.prems by simp
      have "feedback_loop gen review patient ctx (n + 1) (JObj kvs) out = Inr (out, 6)"
        using n5 by (subst feedback_loop.simps) simp
      then show ?thesis
        using step n5 \<open>\<not> (2 \<le> n + 1 \<and> c (n + 1) \<ge> 0.75)\<close> by auto
    qed
  qed
qed

lemma first_stop_least:
  fixes c :: "nat \<Rightarrow> real"
  assumes "2 \<le> m" "c m \<ge> 0.75 \<or> m = 6"
    "\<forall>k. 2 \<le> k \<and> k < m \<longrightarrow> c k < 0.75" "m \<le> 6"
  shows "(LEAST k. 2 \<le> k \<and> (c k \<ge> 0.75 \<or> k = 6)) = m"
proof (rule Least_equality)
  show "2 \<le> m \<and> (c m \<ge> 0.75 \<or> m = 6)" using assms by simp
next
  fix y assume y: "2 \<le> y \<and> (c y \<ge> 0.75 \<or> y = 6)"
  show "m \<le> y"
  proof (rule ccontr)
    assume "\<not> m \<le> y"
    then have "y < m" by simp
    then have "c y < 0.75" "y \<noteq> 6" using assms y by auto
    then show False using y by auto
  qed
qed

text \<open>
  C1. Whatever confidences the reviews return, \<open>run_pipeline\<close> returns after at most six
  iterations, and \<open>loops_run\<close> is the least \<open>k\<close> from 2 on at which the confidence of
  iteration \<open>k\<close> reaches 0.75 or \<open>k\<close> is 6. The hypotheses say that no collaborator raises
  and that the review of iteration \<open>k\<close> carries the confidence \<open>c k\<close>. The confidences
  0.3, 0.9 give two iterations; 0.9 followed by five times 0.2 gives six.
\<close>

theorem run_pipeline_loops_run:
  "(\<forall>gen review patient ctx c.
      (\<forall>k fb. \<exists>out. gen k patient ctx fb = Inr out) \<and>
      (\<forall>k out. \<exists>kvs. review k patient out = Inr (JObj kvs) \<and>
          map_of kvs ''confidence'' = Some (JFloat (Fin (c k)))) \<longrightarrow>
      (\<exists>out n. run_pipeline_loop gen review patient ctx =
                  Inr (JObj [(''final_output'', out), (''loops_run'', JInt (int n))]) \<and>
         n \<le> 6 \<and> n = (LEAST k. 2 \<le> k \<and> (c k \<ge> 0.75 \<or> k = 6)))) \<and>
   run_pipeline_loop echo_gen (scripted_review [0.3, 0.9]) JNull ''ctx'' =
     Inr (JObj [(''final_output'', JInt 2), (''loops_run'', JInt 2)]) \<and>
   run_pipeline_loop echo_gen (scripted_review [0.9, 0.2, 0.2, 0.2, 0.2, 0.2]) JNull ''ctx'' =
     Inr (JObj [(''final_output'', JInt 6), (''loops_run'', JInt 6)])"
proof (intro conjI allI impI)
  fix gen :: "nat \<Rightarrow> json \<Rightarrow> string \<Rightarrow> json \<Rightarrow> py_error + json"
    and review :: "nat \<Rightarrow> json \<Rightarrow> json \<Rightarrow> py_error + json"
    and patient ctx and c :: "nat \<Rightarrow> real"
  assume h: "(\<forall>k fb. \<exists>out. gen k patient ctx fb = Inr out) \<and>
      (\<forall>k out. \<exists>kvs. review k patient out = Inr (JObj kvs) \<and>
          map_of kvs ''confidence'' = Some (JFloat (Fin (c k))))"
  from feedback_loop_stops [of gen patient ctx review c 0 JNull JNull] h
  obtain out m where m: "feedback_loop gen review patient ctx 0 JNull JNull = Inr (out, m)"
      "2 \<le> m" "m \<le> 6" "c m \<ge> 0.75 \<or> m = 6"
      "\<forall>k. 0 < k \<and> 2 \<le> k \<and> k < m \<longrightarrow> c k < 0.75"
    by auto
  have "(LEAST k. 2 \<le> k \<and> (c k \<ge> 0.75 \<or> k = 6)) = m"
    using m by (intro first_stop_least) auto
  then show "\<exists>out n. run_pipeline_loop gen review patient ctx =
                  Inr (JObj [(''final_output'', out), (''loops_run'', JInt (int n))]) \<and>
         n \<le> 6 \<and> n = (LEAST k. 2 \<le> k \<and> (c k \<ge> 0.75 \<or> k = 6))"
    using m by (auto simp: run_pipeline_loop_def)
next
  show "run_pipeline_loop echo_gen (scripted_review [0.3, 0.9]) JNull ''ctx'' =
     Inr (JObj [(''final_output'', JInt 2), (''loops_run'', JInt 2)])"
    by (simp add: run_pipeline_loop_def feedback_loop.simps echo_gen_def scripted_review_def)
next
  show "run_pipeline_loop echo_gen (scripted_review [0.9, 0.2, 0.2, 0.2, 0.2, 0.2]) JNull ''ctx'' =
     Inr (JObj [(''final_output'', JInt 6), (''loops_run'', JInt 6)])"
    by (simp add: run_pipeline_loop_def feedback_loop.simps echo_gen_def scripted_review_def)
qed

theorem run_pipeline_loops_run_witness:
  "\<exists>out. run_pipeline_loop echo_gen
      (\<lambda>k patient out. Inr (JObj [(''confidence'', JFloat (Fin (if k = 3 then 0.8 else 0.1)))]))
      JNull ''ctx'' =
    Inr (JObj [(''final_output'', out), (''loops_run'', JInt 3)])"
proof -
  let ?review = "\<lambda>(k::nat) (patient::json) (out::json).
      (Inr (JObj [(''confidence'', JFloat (Fin (if k = 3 then 0.8 else 0.1)))]) :: py_error + json)"
  let ?c = "\<lambda>k::nat. if k = 3 then 0.8 else (0.1::real)"
  have pre: "(\<forall>k fb. \<exists>out. echo_gen k JNull ''ctx'' fb = Inr out) \<and>
      (\<forall>k out. \<exists>kvs. ?review k JNull out = Inr (JObj kvs) \<and>
          map_of kvs ''confidence'' = Some (JFloat (Fin (?c k))))"
    by (simp add: echo_gen_def)
  have least: "(LEAST k. 2 \<le> k \<and> (?c k \<ge> 0.75 \<or> k = 6)) = 3"
    by (rule Least_equality) (auto split: if_splits)
  from run_pipeline_loops_run [THEN conjunct1, THEN spec [of _ echo_gen],
      THEN spec [of _ ?review], THEN spec [of _ JNull], THEN spec [of _ "''ctx''"],
      THEN spec [of _ ?c], THEN mp, OF pre]
  obtain out n where "run_pipeline_loop echo_gen ?review JNull ''ctx'' =
      Inr (JObj [(''final_output'', out), (''loops_run'', JInt (int n))])"
      "n = (LEAST k. 2 \<le> k \<and> (?c k \<ge> 0.75 \<or> k = 6))"
    by blast
  then show ?thesis using least by auto
qed

section \<open>The extractor\<close>


lemma try_loads_Inr: "json_loads s = Inr v \<Longrightarrow> try_loads s h = Inr v"
  by (simp add: try_loads_def)








text \<open>
  C7. The answer of scenario C, an object behind a remark and with a comma before its closing
  brace, is decoded to the mapping without the comma: the direct parse and the parse of the
  braced span fail, the parse after the removal of the trailing comma succeeds. The result is
  what \<open>json.loads\<close> gives for the same object written without that comma.
\<close>

theorem extract_json_from_text_trailing_comma:
  "extract_json_from_text
     ''sure, here: {\"issues\": [\"a\"], \"recommendations\": [\"b\"], \"confidence\": 0.8,}'' =
   Inr (JObj [(''issues'', JArr [JStr ''a'']), (''recommendations'', JArr [JStr ''b'']),
              (''confidence'', JFloat (Fin 0.8))]) \<and>
   json_loads ''{\"issues\": [\"a\"], \"recommendations\": [\"b\"], \"confidence\": 0.8}'' =
   Inr (JObj [(''issues'', JArr [JStr ''a'']), (''recommendations'', JArr [JStr ''b'']),
              (''confidence'', JFloat (Fin 0.8))])"
  by code_simp




section \<open>Free-form patient files\<close>






section \<open>Normalising field names\<close>

lemma py_isspace_code:
  "py_isspace c \<longleftrightarrow> (of_char c :: nat) \<in> {9, 10, 11, 12, 13, 28, 29, 30, 31, 32, 133, 160}"
  unfolding py_isspace_def
  by (simp add: of_char_eq_iff [where ?'a = nat, symmetric])

lemma of_char_py_lower_char:
  "(of_char (py_lower_char c) :: nat) =
     (let n = of_char c
      in if (65 \<le> n \<and> n \<le> 90) \<or> (192 \<le> n \<and> n \<le> 222 \<and> n \<noteq> 215) then n + 32 else n)"
  by (simp add: py_lower_char_def Let_def)

lemma py_lower_char_idem: "py_lower_char (py_lower_char c) = py_lower_char c"
proof -
  have "(of_char (py_lower_char (py_lower_char c)) :: nat) = of_char (py_lower_char c)"
    by (simp add: of_char_py_lower_char Let_def)
  then show ?thesis by (simp only: of_char_eq_iff)
qed

lemma py_isspace_lower: "py_isspace (py_lower_char c) = py_isspace c"
  by (simp add: py_isspace_code of_char_py_lower_char Let_def)

lemma py_lower_idem: "py_lower (py_lower s) = py_lower s"
  by (simp add: py_lower_def py_lower_char_idem)

lemma dropWhile_lower:
  "dropWhile py_isspace (map py_lower_char s) = map py_lower_char (dropWhile py_isspace s)"
  by (induction s) (simp_all add: py_isspace_lower)

lemma py_strip_lower: "py_strip (py_lower s) = py_lower (py_strip s)"
  by (simp add: py_strip_def py_lower_def dropWhile_lower rev_map)

lemma dropWhile_rev_tail:
  assumes "s = [] \<or> \<not> P (hd s)"
  shows "dropWhile P (rev (dropWhile P (rev s))) = rev (dropWhile P (rev s))"
proof (cases s)
  case Nil
  then show ?thesis by simp
next
  case (Cons a as)
  with assms have a: "\<not> P a" by simp
  have "\<exists>ys. dropWhile P (rev s) = ys @ [a]"
    using Cons a by (simp add: dropWhile_append)
  then obtain ys where "dropWhile P (rev s) = ys @ [a]" by blast
  then show ?thesis using a by simp
qed

lemma py_strip_idem: "py_strip (py_strip s) = py_strip s"
proof -
  let ?t = "dropWhile py_isspace s"
  have h: "?t = [] \<or> \<not> py_isspace (hd ?t)"
    using hd_dropWhile [of py_isspace s] by blast
  have "dropWhile py_isspace (py_strip s) = py_strip s"
    unfolding py_strip_def
    by (rule dropWhile_rev_tail [of "dropWhile py_isspace s" py_isspace, OF h])
  then show ?thesis
    by (simp add: py_strip_def)
qed

lemma key_lower_idem: "py_strip (py_lower (py_strip (py_lower k))) = py_strip (py_lower k)"
  by (simp add: py_strip_lower py_lower_idem py_strip_idem)

lemma canonical_names_fixed:
  "c \<in> snd ` set FIELD_ALIASES \<Longrightarrow> canonical_key c = c"
  by (auto simp: FIELD_ALIASES_def) code_simp+

lemma canonical_key_idem: "canonical_key (canonical_key k) = canonical_key k"
proof (cases "map_of FIELD_ALIASES (py_strip (py_lower k))")
  case None
  then show ?thesis
    by (simp add: canonical_key_def key_lower_idem)
next
  case (Some c)
  then have "c \<in> snd ` set FIELD_ALIASES"
    by (metis map_of_SomeD image_eqI snd_conv)
  then have "canonical_key c = c" by (rule canonical_names_fixed)
  then show ?thesis using Some by (simp add: canonical_key_def)
qed

lemma fold_update_keys:
  "fst ` set (fold (\<lambda>(k, v) d. AList.update (f k) v d) xs acc) = fst ` set acc \<union> f ` fst ` set xs"
proof (induction xs arbitrary: acc)
  case Nil
  then show ?case by simp
next
  case (Cons x xs)
  obtain k v where x: "x = (k, v)" by (cases x)
  have "fst ` set (AList.update (f k) v acc) = insert (f k) (fst ` set acc)"
    using dom_update [of "f k" v acc] by simp
  then show ?case using Cons.IH [of "AList.update (f k) v acc"] x by auto
qed

lemma fold_update_distinct:
  "distinct (map fst acc) \<Longrightarrow>
   distinct (map fst (fold (\<lambda>(k, v) d. AList.update (f k) v d) xs acc))"
  by (induction xs arbitrary: acc) (auto simp: distinct_update)

lemma fold_update_fresh:
  assumes "distinct (map fst ys)" "fst ` set ys \<inter> fst ` set acc = {}"
  shows "fold (\<lambda>(k, v) d. AList.update k v d) ys acc = acc @ ys"
  using assms
proof (induction ys arbitrary: acc)
  case Nil
  then show ?case by simp
next
  case (Cons y ys)
  obtain k v where y: "y = (k, v)" by (cases y)
  have fresh: "k \<notin> fst ` set acc" using Cons.prems y by auto
  then have upd: "AList.update k v acc = acc @ [(k, v)]"
    by (induction acc) auto
  have "distinct (map fst ys)" using Cons.prems by simp
  moreover have "fst ` set ys \<inter> fst ` set (acc @ [(k, v)]) = {}"
    using Cons.prems y by auto
  ultimately have "fold (\<lambda>(k, v) d. AList.update k v d) ys (acc @ [(k, v)]) = (acc @ [(k, v)]) @ ys"
    by (rule Cons.IH)
  then show ?case using y upd by simp
qed

lemma normalize_fields_keys:
  "fst ` set (normalize_fields x) = canonical_key ` fst ` set x"
  by (simp add: normalize_fields_def fold_update_keys)

lemma normalize_fields_idem:
  "normalize_fields (normalize_fields x) = normalize_fields x"
proof -
  let ?y = "normalize_fields x"
  have d: "distinct (map fst ?y)"
    unfolding normalize_fields_def by (rule fold_update_distinct) simp
  have fixed: "\<forall>(k, v) \<in> set ?y. canonical_key k = k"
  proof (clarify)
    fix k v assume "(k, v) \<in> set ?y"
    then have "k \<in> fst ` set ?y" by (rule image_eqI [rotated]) simp
    then have "k \<in> canonical_key ` fst ` set x" by (simp only: normalize_fields_keys)
    then obtain k0 where "k = canonical_key k0" by blast
    then show "canonical_key k = k" by (simp add: canonical_key_idem)
  qed
  have "fold (\<lambda>(k, v) d. AList.update (canonical_key k) v d) ys acc =
        fold (\<lambda>(k, v) d. AList.update k v d) ys acc"
    if "\<forall>(k, v) \<in> set ys. canonical_key k = k" for ys and acc :: "(string \<times> 'a) list"
    using that by (induction ys arbitrary: acc) auto
  then have "normalize_fields ?y = fold (\<lambda>(k, v) d. AList.update k v d) ?y []"
    using fixed unfolding normalize_fields_def [of ?y] by blast
  also have "\<dots> = [] @ ?y"
    by (rule fold_update_fresh) (use d in simp_all)
  finally show ?thesis by simp
qed

lemma normalize_fields_map_of:
  "map_of (fold (\<lambda>(k, v) d. AList.update (canonical_key k) v d) x acc) =
   fold (\<lambda>(k, v) m. m(canonical_key k \<mapsto> v)) x (map_of acc)"
  by (induction x arbitrary: acc) (auto simp: update_conv')

lemma alias_keys_canonical:
  "\<forall>(a, c) \<in> set FIELD_ALIASES. canonical_key a = c"
  unfolding FIELD_ALIASES_def list.set ball_simps prod.case
  by (intro conjI; code_simp)

lemma normalize_fields_single: "normalize_fields [(k, v)] = [(canonical_key k, v)]"
  by (simp add: normalize_fields_def)

text \<open>
  C5. \<open>normalize_fields\<close> is a total function on mappings with string keys, and applying it
  twice gives what applying it once gives. The result maps \<open>canonical_key k\<close> to \<open>v\<close> for the
  entries \<open>(k, v)\<close> of the input, a later entry replacing an earlier one with the same
  canonical key, and no value is changed. Every key of the alias table is rewritten to its
  canonical name, as is every key that lower-cased and trimmed is in the table; a key that
  lower-cased and trimmed is not in the table becomes just that.
\<close>

theorem normalize_fields_idempotent:
  "normalize_fields (normalize_fields x) = normalize_fields x \<and>
   map_of (normalize_fields x) = fold (\<lambda>(k, v) m. m(canonical_key k \<mapsto> v)) x Map.empty \<and>
   (\<forall>(a, c) \<in> set FIELD_ALIASES. normalize_fields [(a, v)] = [(c, v)]) \<and>
   (map_of FIELD_ALIASES (py_strip (py_lower k)) = Some c \<longrightarrow>
      normalize_fields [(k, v)] = [(c, v)]) \<and>
   (map_of FIELD_ALIASES (py_strip (py_lower k)) = None \<longrightarrow>
      normalize_fields [(k, v)] = [(py_strip (py_lower k), v)])"
proof (intro conjI)
  show "normalize_fields (normalize_fields x) = normalize_fields x"
    by (rule normalize_fields_idem)
  show "map_of (normalize_fields x) = fold (\<lambda>(k, v) m. m(canonical_key k \<mapsto> v)) x Map.empty"
    using normalize_fields_map_of [of x "[]"] by (simp add: normalize_fields_def)
  show "\<forall>(a, c) \<in> set FIELD_ALIASES. normalize_fields [(a, v)] = [(c, v)]"
    using alias_keys_canonical by (auto simp: normalize_fields_single)
  show "map_of FIELD_ALIASES (py_strip (py_lower k)) = Some c \<longrightarrow>
      normalize_fields [(k, v)] = [(c, v)]"
    by (simp add: normalize_fields_single canonical_key_def)
  show "map_of FIELD_ALIASES (py_strip (py_lower k)) = None \<longrightarrow>
      normalize_fields [(k, v)] = [(py_strip (py_lower k), v)]"
    by (simp add: normalize_fields_single canonical_key_def)
qed

theorem normalize_fields_idempotent_witness:
  "normalize_fields (normalize_fields [('' BUN '', JInt 30), (''Cr'', JFloat (Fin 1.4))]) =
     normalize_fields [('' BUN '', JInt 30), (''Cr'', JFloat (Fin 1.4))] \<and>
   normalize_fields [(''egfr'', JInt 55)] = [(''egfr_ckd_epi'', JInt 55)] \<and>
   normalize_fields [(''Serum_Creatinine '', JInt 2)] = [(''creatinine_mg_dl'', JInt 2)] \<and>
   normalize_fields [('' Age'', JInt 74)] = [(''age'', JInt 74)]"
proof -

  have m: "(''egfr'', ''egfr_ckd_epi'') \<in> set FIELD_ALIASES"
    by (simp add: FIELD_ALIASES_def)
  have s: "map_of FIELD_ALIASES (py_strip (py_lower ''Serum_Creatinine '')) =
      Some ''creatinine_mg_dl''"
    by code_simp
  have n: "map_of FIELD_ALIASES (py_strip (py_lower '' Age'')) = None"
    by code_simp
  have l: "py_strip (py_lower '' Age'') = ''age''"
    by code_simp
  have 1: "normalize_fields (normalize_fields [('' BUN '', JInt 30), (''Cr'', JFloat (Fin 1.4))]) =
     normalize_fields [('' BUN '', JInt 30), (''Cr'', JFloat (Fin 1.4))]"
    by (rule normalize_fields_idempotent [THEN conjunct1])
  have "\<forall>(a, c) \<in> set FIELD_ALIASES. normalize_fields [(a, JInt 55)] = [(c, JInt 55)]"
    by (rule normalize_fields_idempotent [of "[]" "JInt 55", THEN conjunct2, THEN conjunct2, THEN conjunct1])
  from bspec [OF this m]
  have 2: "normalize_fields [(''egfr'', JInt 55)] = [(''egfr_ckd_epi'', JInt 55)]"
    by simp
  have 3: "normalize_fields [(''Serum_Creatinine '', JInt 2)] = [(''creatinine_mg_dl'', JInt 2)]"
    by (rule normalize_fields_idempotent [of "[]" _ "''Serum_Creatinine ''", THEN conjunct2, THEN conjunct2,
          THEN conjunct2, THEN conjunct1, THEN mp, OF s])
  have "normalize_fields [('' Age'', JInt 74)] = [(py_strip (py_lower '' Age''), JInt 74)]"
    by (rule normalize_fields_idempotent [of "[]" _ "'' Age''", THEN conjunct2, THEN conjunct2,
          THEN conjunct2, THEN conjunct2, THEN mp, OF n])
  then have 4: "normalize_fields [('' Age'', JInt 74)] = [(''age'', JInt 74)]"
    using l by simp
  show ?thesis using 1 2 3 4 by blast
qed

section \<open>Confidence values\<close>



lemma then_do_Inr: "m = Inr x \<Longrightarrow> then_do m f = f x"
  by (simp add: then_do_def)

lemma then_do_Inl: "m = Inl e \<Longrightarrow> then_do m f = Inl e"
  by (simp add: then_do_def)

lemma then_do_InrE:
  assumes "then_do m f = Inr r"
  obtains x where "m = Inr x" "f x = Inr r"
  using assms by (cases m) (simp_all add: then_do_def)









section \<open>The review agent\<close>

lemma optional_missing_dict:
  "optional_missing (JObj kvs) =
     Inr (map_of kvs ''status'' = Some (JStr ''missing'') \<and>
          map_of kvs ''priority'' = Some (JStr ''optional''))"
  by (auto simp: optional_missing_def then_do_def split: option.splits)

lemma filter_checks_dicts:
  "\<forall>c \<in> set cs. \<exists>kvs. c = JObj kvs \<Longrightarrow>
   filter_checks cs = Inr (filter (\<lambda>c. optional_missing c \<noteq> Inr True) cs)"
proof (induction cs)
  case Nil
  then show ?case by simp
next
  case (Cons c cs)
  then obtain kvs where c: "c = JObj kvs" by auto
  have "filter_checks cs = Inr (filter (\<lambda>c. optional_missing c \<noteq> Inr True) cs)"
    using Cons by simp
  then show ?case
    by (simp add: c optional_missing_dict then_do_def)
qed

lemma drop_optional_missing_dict:
  assumes "map_of tool_out ''checks'' = Some (JArr checks)"
    and "\<forall>c \<in> set checks. \<exists>kvs. c = JObj kvs"
  shows "drop_optional_missing (JObj tool_out) =
     Inr (JObj (AList.update ''checks''
            (JArr (filter (\<lambda>c. optional_missing c \<noteq> Inr True) checks)) tool_out))"
  using assms by (simp add: drop_optional_missing_def then_do_def filter_checks_dicts)

lemma review_downstream_result:
  assumes "review_downstream env raw patient_data agent2_output renal_out = Inr res"
  shows "\<exists>issues recs conf a2c llm_raw hall.
     res = JObj
         [(''issues'', JArr issues),
          (''recommendations'', JArr recs),
          (''confidence'', JFloat conf),
          (''agent2_confidence'', a2c),
          (''timestamp'', JStr (now_iso env)),
          (''tool_outputs'', JObj [(''renal'', renal_out)]),
          (''llm_raw'', JStr llm_raw),
          (''hallucination_analysis'', hall),
          (''feedback'', JObj [(''issues'', JArr issues),
                               (''recommendations'', JArr recs),
                               (''confidence'', JFloat conf)])]"
proof -
  from assms [unfolded review_downstream_def]
  obtain a2c where s1: "then_do
       (call_llm env (review_prompt env raw patient_data renal_out agent2_output))
       (\<lambda>llm_raw.
     then_do (extract_json_from_text llm_raw) (\<lambda>extracted.
     then_do (coerce_feedback_shape env (if py_truthy extracted then extracted else JObj []))
       (\<lambda>(issues, recs, conf).
     then_do (detect_and_score_statements env
                (JObj [(''issues'', JArr issues), (''recommendations'', JArr recs),
                       (''confidence'', JFloat conf)])
                patient_data
                (JObj [(''renal'', renal_out)])) (\<lambda>hall_analysis.
     then_do (penalised_confidence conf hall_analysis) (\<lambda>conf'.
       Inr (JObj
         [(''issues'', JArr issues),
          (''recommendations'', JArr recs),
          (''confidence'', JFloat conf'),
          (''agent2_confidence'', a2c),
          (''timestamp'', JStr (now_iso env)),
          (''tool_outputs'', JObj [(''renal'', renal_out)]),
          (''llm_raw'', JStr llm_raw),
          (''hallucination_analysis'', hall_analysis),
          (''feedback'', JObj [(''issues'', JArr issues),
                               (''recommendations'', JArr recs),
                               (''confidence'', JFloat conf')])])))))) = Inr res"
    by (rule then_do_InrE)
  then obtain llm_raw where s2: "then_do (extract_json_from_text llm_raw) (\<lambda>extracted.
     then_do (coerce_feedback_shape env (if py_truthy extracted then extracted else JObj []))
       (\<lambda>(issues, recs, conf).
     then_do (detect_and_score_statements env
                (JObj [(''issues'', JArr issues), (''recommendations'', JArr recs),
                       (''confidence'', JFloat conf)])
                patient_data
                (JObj [(''renal'', renal_out)])) (\<lambda>hall_analysis.
     then_do (penalised_confidence conf hall_analysis) (\<lambda>conf'.
       Inr (JObj
         [(''issues'', JArr issues),
          (''recommendations'', JArr recs),
          (''confidence'', JFloat conf'),
          (''agent2_confidence'', a2c),
          (''timestamp'', JStr (now_iso env)),
          (''tool_outputs'', JObj [(''renal'', renal_out)]),
          (''llm_raw'', JStr llm_raw),
          (''hallucination_analysis'', hall_analysis),
          (''feedback'', JObj [(''issues'', JArr issues),
                               (''recommendations'', JArr recs),
                               (''confidence'', JFloat conf')])]))))) = Inr res"
    by (rule then_do_InrE)
  then obtain extracted where s3:
    "then_do (coerce_feedback_shape env (if py_truthy extracted then extracted else JObj []))
       (\<lambda>(issues, recs, conf).
     then_do (detect_and_score_statements env
                (JObj [(''issues'', JArr issues), (''recommendations'', JArr recs),
                       (''confidence'', JFloat conf)])
                patient_data
                (JObj [(''renal'', renal_out)])) (\<lambda>hall_analysis.
     then_do (penalised_confidence conf hall_analysis) (\<lambda>conf'.
       Inr (JObj
         [(''issues'', JArr issues),
          (''recommendations'', JArr recs),
          (''confidence'', JFloat conf'),
          (''agent2_confidence'', a2c),
          (''timestamp'', JStr (now_iso env)),
          (''tool_outputs'', JObj [(''renal'', renal_out)]),
          (''llm_raw'', JStr llm_raw),
          (''hallucination_analysis'', hall_analysis),
          (''feedback'', JObj [(''issues'', JArr issues),
                               (''recommendations'', JArr recs),
                               (''confidence'', JFloat conf')])])))) = Inr res"
    by (rule then_do_InrE)
  then obtain shape where s4: "(\<lambda>(issues, recs, conf).
     then_do (detect_and_score_statements env
                (JObj [(''issues'', JArr issues), (''recommendations'', JArr recs),
                       (''confidence'', JFloat conf)])
                patient_data
                (JObj [(''renal'', renal_out)])) (\<lambda>hall_analysis.
     then_do (penalised_confidence conf hall_analysis) (\<lambda>conf'.
       Inr (JObj
         [(''issues'', JArr issues),
          (''recommendations'', JArr recs),
          (''confidence'', JFloat conf'),
          (''agent2_confidence'', a2c),
          (''timestamp'', JStr (now_iso env)),
          (''tool_outputs'', JObj [(''renal'', renal_out)]),
          (''llm_raw'', JStr llm_raw),
          (''hallucination_analysis'', hall_analysis),
          (''feedback'', JObj [(''issues'', JArr issues),
                               (''recommendations'', JArr recs),
                               (''confidence'', JFloat conf')])])))) shape = Inr res"
    by (rule then_do_InrE)
  obtain issues recs conf where shape: "shape = (issues, recs, conf)"
    by (cases shape)
  from s4 [unfolded shape prod.case]
  obtain hall where s5: "then_do (penalised_confidence conf hall) (\<lambda>conf'.
       Inr (JObj
         [(''issues'', JArr issues),
          (''recommendations'', JArr recs),
          (''confidence'', JFloat conf'),
          (''agent2_confidence'', a2c),
          (''timestamp'', JStr (now_iso env)),
          (''tool_outputs'', JObj [(''renal'', renal_out)]),
          (''llm_raw'', JStr llm_raw),
          (''hallucination_analysis'', hall),
          (''feedback'', JObj [(''issues'', JArr issues),
                               (''recommendations'', JArr recs),
                               (''confidence'', JFloat conf')])])) = Inr res"
    by (rule then_do_InrE)
  then obtain conf' where "Inr (JObj
         [(''issues'', JArr issues),
          (''recommendations'', JArr recs),
          (''confidence'', JFloat conf'),
          (''agent2_confidence'', a2c),
          (''timestamp'', JStr (now_iso env)),
          (''tool_outputs'', JObj [(''renal'', renal_out)]),
          (''llm_raw'', JStr llm_raw),
          (''hallucination_analysis'', hall),
          (''feedback'', JObj [(''issues'', JArr issues),
                               (''recommendations'', JArr recs),
                               (''confidence'', JFloat conf')])]) = (Inr res :: py_error + json)"
    by (rule then_do_InrE)
  then show ?thesis by blast
qed

lemma run_review_agent_downstream:
  assumes "run_review_agent env raw agent2_output = Inr res"
  shows "\<exists>renal_out.
     review_downstream env raw (normalize_fields raw) agent2_output renal_out = Inr res"
proof -
  from assms [unfolded run_review_agent_def Let_def]
  obtain tool_out where "then_do (drop_optional_missing tool_out) (\<lambda>renal_out.
        review_downstream env raw (normalize_fields raw) agent2_output renal_out) = Inr res"
    by (rule then_do_InrE)
  then obtain renal_out where
    "review_downstream env raw (normalize_fields raw) agent2_output renal_out = Inr res"
    by (rule then_do_InrE)
  then show ?thesis by blast
qed

text \<open>
  C8. When the renal tool returns a mapping whose \<open>checks\<close> are a list of check records,
  everything \<open>run_review_agent\<close> does after the tool call is computed from the tool output in
  which \<open>checks\<close> holds exactly the records that are not both \<open>missing\<close> and \<open>optional\<close>, in
  their order and unchanged: the scoring prompt, the review prompt, the argument of the
  hallucination analysis and the \<open>tool_outputs\<close> of the result all take it from there. The
  other entries of the tool output stay as they are.
\<close>

theorem run_review_agent_filters_checks:
  assumes "run_renal_tool env (normalize_fields raw) = Inr (JObj tool_out)"
    and "map_of tool_out ''checks'' = Some (JArr checks)"
    and "\<forall>c \<in> set checks. \<exists>kvs. c = JObj kvs"
  shows "\<exists>kept.
     kept = filter (\<lambda>c. \<not> (py_get c ''status'' JNull = Inr (JStr ''missing'') \<and>
                             py_get c ''priority'' JNull = Inr (JStr ''optional''))) checks \<and>
     run_review_agent env raw agent2_output =
       review_downstream env raw (normalize_fields raw) agent2_output
         (JObj (AList.update ''checks'' (JArr kept) tool_out)) \<and>
     (\<forall>res. run_review_agent env raw agent2_output = Inr res \<longrightarrow>
        py_getitem res ''tool_outputs'' =
          Inr (JObj [(''renal'', JObj (AList.update ''checks'' (JArr kept) tool_out))])) \<and>
     (\<forall>k. k \<noteq> ''checks'' \<longrightarrow>
        map_of (AList.update ''checks'' (JArr kept) tool_out) k = map_of tool_out k)"
proof -
  let ?kept = "filter (\<lambda>c. \<not> (py_get c ''status'' JNull = Inr (JStr ''missing'') \<and>
                             py_get c ''priority'' JNull = Inr (JStr ''optional''))) checks"
  let ?renal = "JObj (AList.update ''checks'' (JArr ?kept) tool_out)"
  have same: "filter (\<lambda>c. optional_missing c \<noteq> Inr True) checks = ?kept"
  proof (rule filter_cong [OF refl])
    fix c assume "c \<in> set checks"
    then obtain kvs where "c = JObj kvs" using assms(3) by blast
    then show "(optional_missing c \<noteq> Inr True) =
        (\<not> (py_get c ''status'' JNull = Inr (JStr ''missing'') \<and>
            py_get c ''priority'' JNull = Inr (JStr ''optional'')))"
      by (auto simp: optional_missing_dict split: option.splits)
  qed
  have "drop_optional_missing (JObj tool_out) = Inr ?renal"
    using drop_optional_missing_dict [OF assms(2,3)] same by simp
  then have run: "run_review_agent env raw agent2_output =
      review_downstream env raw (normalize_fields raw) agent2_output ?renal"
    using assms(1) by (simp add: run_review_agent_def then_do_Inr)
  have out: "\<forall>res. run_review_agent env raw agent2_output = Inr res \<longrightarrow>
        py_getitem res ''tool_outputs'' = Inr (JObj [(''renal'', ?renal)])"
  proof (intro allI impI)
    fix res assume "run_review_agent env raw agent2_output = Inr res"
    then have "review_downstream env raw (normalize_fields raw) agent2_output ?renal = Inr res"
      using run by simp
    from review_downstream_result [OF this]
    show "py_getitem res ''tool_outputs'' = Inr (JObj [(''renal'', ?renal)])"
      by auto
  qed
  have rest: "\<forall>k. k \<noteq> ''checks'' \<longrightarrow>
        map_of (AList.update ''checks'' (JArr ?kept) tool_out) k = map_of tool_out k"
    by (simp add: update_conv')
  show ?thesis
    using run out rest by blast
qed

theorem run_review_agent_filters_checks_witness:
  "\<exists>res. run_review_agent demo_env [(''Cr'', JFloat (Fin 1.2))] (JObj []) = Inr res \<and>
     py_getitem res ''tool_outputs'' =
       Inr (JObj [(''renal'', JObj [(''egfr'', JInt 40), (''checks'', JArr [
          JObj [(''name'', JStr ''egfr''), (''status'', JStr ''ok''),
                (''priority'', JStr ''required'')],
          JObj [(''name'', JStr ''cr''), (''status'', JStr ''missing''),
                (''priority'', JStr ''required'')]])])])"
proof -
  let ?raw = "[(''Cr'', JFloat (Fin 1.2))]"
  let ?checks = "[
        JObj [(''name'', JStr ''egfr''), (''status'', JStr ''ok''), (''priority'', JStr ''required'')],
        JObj [(''name'', JStr ''bmi''), (''status'', JStr ''missing''), (''priority'', JStr ''optional'')],
        JObj [(''name'', JStr ''cr''), (''status'', JStr ''missing''), (''priority'', JStr ''required'')]]"
  let ?tool = "[(''egfr'', JInt 40), (''checks'', JArr ?checks)]"
  have a: "run_renal_tool demo_env (normalize_fields ?raw) = Inr (JObj ?tool)"
    by (simp add: demo_env_def)
  have b: "map_of ?tool ''checks'' = Some (JArr ?checks)"
    by simp
  have c: "\<forall>c \<in> set ?checks. \<exists>kvs. c = JObj kvs"
    by simp
  have ok: "\<not> isl (run_review_agent demo_env ?raw (JObj []))"
    by code_simp
  then obtain res where res: "run_review_agent demo_env ?raw (JObj []) = Inr res"
    by (cases "run_review_agent demo_env ?raw (JObj [])") simp_all
  from run_review_agent_filters_checks [OF a b c, of "JObj []"] res
  have "py_getitem res ''tool_outputs'' =
      Inr (JObj [(''renal'', JObj (AList.update ''checks''
        (JArr (filter (\<lambda>c. \<not> (py_get c ''status'' JNull = Inr (JStr ''missing'') \<and>
                             py_get c ''priority'' JNull = Inr (JStr ''optional''))) ?checks))
        ?tool))])"
    by blast
  then have "py_getitem res ''tool_outputs'' =
       Inr (JObj [(''renal'', JObj [(''egfr'', JInt 40), (''checks'', JArr [
          JObj [(''name'', JStr ''egfr''), (''status'', JStr ''ok''),
                (''priority'', JStr ''required'')],
          JObj [(''name'', JStr ''cr''), (''status'', JStr ''missing''),
                (''priority'', JStr ''required'')]])])])"
    by simp
  with res show ?thesis by blast
qed

text \<open>
  C9. Every mapping \<open>run_review_agent\<close> returns has a \<open>feedback\<close> entry that is a mapping
  with the keys \<open>issues\<close>, \<open>recommendations\<close> and \<open>confidence\<close> and nothing else, and their
  values are the values of the same keys at the top level.
\<close>

theorem run_review_agent_feedback_payload:
  assumes "run_review_agent env raw agent2_output = Inr res"
  shows "\<exists>issues recs conf.
     py_getitem res ''feedback'' =
       Inr (JObj [(''issues'', issues), (''recommendations'', recs), (''confidence'', conf)]) \<and>
     py_getitem res ''issues'' = Inr issues \<and>
     py_getitem res ''recommendations'' = Inr recs \<and>
     py_getitem res ''confidence'' = Inr conf"
proof -
  from run_review_agent_downstream [OF assms] obtain renal_out where
    "review_downstream env raw (normalize_fields raw) agent2_output renal_out = Inr res"
    by blast
  from review_downstream_result [OF this] show ?thesis
    by auto
qed

theorem run_review_agent_feedback_payload_witness:
  "\<exists>res. run_review_agent demo_env [(''bun'', JInt 30)] (JObj [(''protocol'', JStr ''CT'')]) =
            Inr res \<and>
     (\<exists>issues recs conf.
        py_getitem res ''feedback'' =
          Inr (JObj [(''issues'', issues), (''recommendations'', recs), (''confidence'', conf)]) \<and>
        py_getitem res ''issues'' = Inr issues \<and>
        py_getitem res ''recommendations'' = Inr recs \<and>
        py_getitem res ''confidence'' = Inr conf)"
proof -
  have "\<not> isl (run_review_agent demo_env [(''bun'', JInt 30)] (JObj [(''protocol'', JStr ''CT'')]))"
    by code_simp
  then obtain res where
    res: "run_review_agent demo_env [(''bun'', JInt 30)] (JObj [(''protocol'', JStr ''CT'')]) =
      Inr res"
    by (cases "run_review_agent demo_env [(''bun'', JInt 30)] (JObj [(''protocol'', JStr ''CT'')])")
       simp_all
  from run_review_agent_feedback_payload [OF res] res show ?thesis
    by blast
qed

end
